theory Spec2Isabelle
  imports Main
begin

section \<open>The offline-map service worker (sw.js)\<close>

text \<open>
  The worker is a set of event listeners over the browser's Cache Storage and network.
  The model threads one \<open>world\<close> value through every listener: the cache storage,
  the log of network requests, the bookkeeping of response bodies and the messages posted
  to clients. What the worker cannot decide (what the network answers, whether the storage
  fails on a deletion, the worker's own origin) is the environment \<open>env\<close>.
  A rejected promise is the \<open>Inl\<close> of a result, a fulfilled one the \<open>Inr\<close>.
  Console output is not modelled.
\<close>

subsection \<open>Strings\<close>

text \<open>\<open>s.startsWith(p)\<close> and \<open>s.endsWith(p)\<close> of JavaScript.\<close>

fun startsWith :: "string \<Rightarrow> string \<Rightarrow> bool" where
  "startsWith s [] = True"
| "startsWith [] (p # ps) = False"
| "startsWith (c # s) (p # ps) = (c = p \<and> startsWith s ps)"

definition endsWith :: "string \<Rightarrow> string \<Rightarrow> bool" where
  "endsWith s p = startsWith (rev s) (rev p)"

subsection \<open>Requests, responses, errors\<close>

record request =
  url :: string
  mode :: string
  destination :: string

text \<open>
  What a response carries, and what a cache entry keeps of it. The field \<open>rtype\<close> is
  the \<open>type\<close> of the JavaScript response (\<open>basic\<close>, \<open>cors\<close>, \<open>opaque\<close>, ...).
\<close>

record snapshot =
  status :: nat
  rtype :: string
  body :: string

text \<open>
  A response object: its identity and its content. Status, type and body never change;
  whether the body has been read is kept per object in the world (\<open>bodyUsed\<close>).
\<close>

record response =
  rid :: nat
  content :: snapshot

datatype error = Error (message: string)

subsection \<open>Configuration (lines 2 to 22)\<close>

record config =
  appShellCacheName :: string
  tileCacheName :: string
  tileUrlPattern :: string
  appShellFiles :: "string list"

definition APP_SHELL_CACHE_NAME :: string where
  "APP_SHELL_CACHE_NAME = ''offline-map-appshell-v1''"

definition TILE_CACHE_NAME :: string where
  "TILE_CACHE_NAME = ''offline-map-tiles-v1''"

definition TILE_URL_PATTERN :: string where
  "TILE_URL_PATTERN = ''https://tile.openstreetmap.org/''"

definition APP_SHELL_FILES :: "string list" where
  "APP_SHELL_FILES =
     [''/'',
      ''/index.html'',
      ''/style.css'',
      ''/script.js'',
      ''/manifest.json'',
      ''/icons/icon-192x192.png'',
      ''/icons/icon-512x512.png'',
      ''https://unpkg.com/leaflet@1.9.4/dist/leaflet.css'',
      ''https://unpkg.com/leaflet@1.9.4/dist/leaflet.js'']"

text \<open>The worker as the source has it.\<close>

definition sw :: config where
  "sw = \<lparr> appShellCacheName = APP_SHELL_CACHE_NAME,
          tileCacheName = TILE_CACHE_NAME,
          tileUrlPattern = TILE_URL_PATTERN,
          appShellFiles = APP_SHELL_FILES \<rparr>"

subsection \<open>The browser: environment and world\<close>

text \<open>
  The environment: what the network answers to a request for a URL (an error when the
  request fails; the answer is taken to depend on the URL alone), the error with which
  the storage rejects the deletion of a cache, if it does, the error with which
  \<open>cache.put\<close> of a request into a cache is rejected, if it is (a request that is not
  a GET, an answer that varies on everything, a full storage), and
  \<open>self.location.origin\<close>.
\<close>

record env =
  network :: "string \<Rightarrow> error + snapshot"
  deleteFault :: "string \<Rightarrow> error option"
  putFault :: "string \<Rightarrow> request \<Rightarrow> error option"
  origin :: string

type_synonym cache = "(string \<times> snapshot) list"

record reply =
  reply_status :: string
  reply_error :: "string option"

text \<open>
  The world: the caches by name, in creation order, each a list of entries by URL; the
  URLs requested over the network, in order; the number of response objects created so
  far and the set of those whose body has been read; the calls of \<open>cache.put\<close> that
  have been made and not settled yet (cache name, request, response), oldest first; the
  messages posted to clients; and whether \<open>skipWaiting\<close> and \<open>clients.claim\<close> have
  been called.
\<close>

type_synonym pending_put = "string \<times> request \<times> response"

record world =
  caches :: "(string \<times> cache) list"
  fetched :: "string list"
  nextId :: nat
  bodyUsed :: "nat set"
  pending :: "pending_put list"
  posted :: "(nat \<times> reply) list"
  skippedWaiting :: bool
  claimed :: bool

text \<open>
  Cache Storage. A request is identified by its absolute URL (the worker only ever
  caches GET requests). \<open>caches.open\<close> creates a missing cache; \<open>caches.delete\<close>
  answers whether there was one, and rejects only on a storage fault;
  \<open>caches.keys\<close> lists the names in creation order.
\<close>

definition partition_of :: "world \<Rightarrow> string \<Rightarrow> cache option" where
  "partition_of w name = map_of (caches w) name"

definition lookup :: "world \<Rightarrow> string \<Rightarrow> string \<Rightarrow> snapshot option" where
  "lookup w name k = (case partition_of w name of None \<Rightarrow> None | Some c \<Rightarrow> map_of c k)"

definition caches_open :: "string \<Rightarrow> world \<Rightarrow> world" where
  "caches_open name w =
     (case partition_of w name of
        Some c \<Rightarrow> w
      | None \<Rightarrow> w\<lparr>caches := caches w @ [(name, [])]\<rparr>)"

definition caches_keys :: "world \<Rightarrow> string list" where
  "caches_keys w = map fst (caches w)"

definition caches_delete :: "env \<Rightarrow> string \<Rightarrow> world \<Rightarrow> (error + bool) \<times> world" where
  "caches_delete e name w =
     (case deleteFault e name of
        Some err \<Rightarrow> (Inl err, w)
      | None \<Rightarrow>
          (Inr (partition_of w name \<noteq> None),
           w\<lparr>caches := filter (\<lambda>p. fst p \<noteq> name) (caches w)\<rparr>))"

text \<open>\<open>cache.match\<close> builds a new response object from the stored entry.\<close>

definition new_response :: "snapshot \<Rightarrow> world \<Rightarrow> response \<times> world" where
  "new_response s w = (\<lparr>rid = nextId w, content = s\<rparr>, w\<lparr>nextId := Suc (nextId w)\<rparr>)"

definition cache_match :: "string \<Rightarrow> string \<Rightarrow> world \<Rightarrow> response option \<times> world" where
  "cache_match name k w =
     (case lookup w name k of
        None \<Rightarrow> (None, w)
      | Some s \<Rightarrow> (case new_response s w of (r, w1) \<Rightarrow> (Some r, w1)))"

text \<open>
  \<open>response.clone()\<close>: a second object with the same content; a \<open>TypeError\<close> when
  the body has been read already.
\<close>

definition clone :: "response \<Rightarrow> world \<Rightarrow> (error + response) \<times> world" where
  "clone r w =
     (if rid r \<in> bodyUsed w then (Inl (Error ''TypeError: body already used''), w)
      else (case new_response (content r) w of (r1, w1) \<Rightarrow> (Inr r1, w1)))"

text \<open>
  \<open>cache.put(request, response)\<close> reads the body of the response it is given, and
  replaces the entry of that request in the cache. \<open>cache_put\<close> is the call together
  with the settling of its promise, as \<open>cache.add\<close> runs it before its own promise
  settles.
\<close>

definition store :: "string \<Rightarrow> snapshot \<Rightarrow> cache \<Rightarrow> cache" where
  "store k s c = filter (\<lambda>p. fst p \<noteq> k) c @ [(k, s)]"

definition cache_put :: "string \<Rightarrow> string \<Rightarrow> response \<Rightarrow> world \<Rightarrow> (error + unit) \<times> world" where
  "cache_put name k r w =
     (if rid r \<in> bodyUsed w then (Inl (Error ''TypeError: body already used''), w)
      else (Inr (),
            w\<lparr>caches := map (\<lambda>p. if fst p = name then (fst p, store k (content r) (snd p)) else p)
                             (caches w),
              bodyUsed := insert (rid r) (bodyUsed w)\<rparr>))"

text \<open>
  A \<open>cache.put\<close> whose promise the caller does not wait for is two events. The call
  takes the body of the response (a response whose body has been read is refused at
  once) and leaves the write pending. Later the put settles: the browser rejects it, and
  nothing is written, or it writes the entry into the cache of that name, if that cache
  is still there. What the browser refuses at once and what it rejects later is not
  told apart: either way nothing is written.
\<close>

definition begin_put :: "string \<Rightarrow> request \<Rightarrow> response \<Rightarrow> world \<Rightarrow> world" where
  "begin_put name req r w =
     (if rid r \<in> bodyUsed w then w
      else w\<lparr>bodyUsed := insert (rid r) (bodyUsed w),
             pending := pending w @ [(name, req, r)]\<rparr>)"

definition settle_put :: "env \<Rightarrow> pending_put \<Rightarrow> world \<Rightarrow> (error + unit) \<times> world" where
  "settle_put e p w =
     (case p of (name, req, r) \<Rightarrow>
        (let w1 = w\<lparr>pending := remove1 p (pending w)\<rparr> in
         case putFault e name req of
           Some err \<Rightarrow> (Inl err, w1)
         | None \<Rightarrow>
             (Inr (),
              w1\<lparr>caches :=
                    map (\<lambda>c. if fst c = name
                              then (fst c, store (url req) (content r) (snd c)) else c)
                        (caches w1)\<rparr>)))"

text \<open>\<open>fetch\<close>: one network request, logged; the answer is the environment's.\<close>

definition fetch :: "env \<Rightarrow> string \<Rightarrow> world \<Rightarrow> (error + response) \<times> world" where
  "fetch e u w =
     (let w1 = w\<lparr>fetched := fetched w @ [u]\<rparr> in
      case network e u of
        Inl err \<Rightarrow> (Inl err, w1)
      | Inr s \<Rightarrow> (case new_response s w1 of (r, w2) \<Rightarrow> (Inr r, w2)))"

text \<open>
  \<open>cache.add(url)\<close>: the URL is resolved against the worker's origin and fetched; a
  network error, or a status that is not 2xx or is 206, rejects; otherwise the response
  is put under the resolved URL. A URL that starts with a slash is a path on the worker's
  origin; any other is taken to be absolute already, as every entry of the source's
  list is.
\<close>

definition resolveUrl :: "env \<Rightarrow> string \<Rightarrow> string" where
  "resolveUrl e u = (if startsWith u ''/'' then origin e @ u else u)"

definition addable :: "snapshot \<Rightarrow> bool" where
  "addable s = (200 \<le> status s \<and> status s \<le> 299 \<and> status s \<noteq> 206)"

definition cache_add :: "env \<Rightarrow> string \<Rightarrow> string \<Rightarrow> world \<Rightarrow> (error + unit) \<times> world" where
  "cache_add e name u w =
     (case fetch e (resolveUrl e u) w of
        (Inl err, w1) \<Rightarrow> (Inl err, w1)
      | (Inr r, w1) \<Rightarrow>
          (if addable (content r) then cache_put name (resolveUrl e u) r w1
           else (Inl (Error ''TypeError: bad response status''), w1)))"

subsection \<open>The cache strategy (lines 90 to 116)\<close>

text \<open>
  The source calls \<open>cache.put\<close> and neither waits for its promise nor returns it: the
  response is returned while the put is pending, and the outcome of the put reaches
  nobody.
\<close>

definition cacheFirstThenNetwork ::
  "env \<Rightarrow> request \<Rightarrow> string \<Rightarrow> world \<Rightarrow> (error + response) \<times> world" where
  "cacheFirstThenNetwork e req cacheName w =
     (let w0 = caches_open cacheName w in
      case cache_match cacheName (url req) w0 of
        (Some cachedResponse, w1) \<Rightarrow> (Inr cachedResponse, w1)
      | (None, w1) \<Rightarrow>
          (case fetch e (url req) w1 of
             (Inl err, w2) \<Rightarrow> (Inl err, w2)
           | (Inr networkResponse, w2) \<Rightarrow>
               (if status (content networkResponse) = 200
                   \<and> rtype (content networkResponse) = ''basic''
                then
                  (case clone networkResponse w2 of
                     (Inl err, w3) \<Rightarrow> (Inl err, w3)
                   | (Inr responseToCache, w3) \<Rightarrow>
                       (let w4 = begin_put cacheName req responseToCache w3
                        in (Inr networkResponse, w4)))
                else (Inr networkResponse, w2))))"

subsection \<open>Classification and the fetch listener (lines 68 to 85, 122 to 135)\<close>

definition isAppShellRequest :: "config \<Rightarrow> env \<Rightarrow> request \<Rightarrow> bool" where
  "isAppShellRequest cfg e req =
     (let isSameOrigin = startsWith (url req) (origin e);
          isListedFile = list_ex (\<lambda>fileUrl. endsWith (url req) fileUrl) (appShellFiles cfg);
          isNavigation = (mode req = ''navigate'');
          isLeafletResource = startsWith (url req) ''https://unpkg.com/leaflet''
      in isNavigation \<or> isListedFile \<or> isLeafletResource
         \<or> (isSameOrigin \<and> destination req \<noteq> ''''))"

definition fetch_listener ::
  "config \<Rightarrow> env \<Rightarrow> request \<Rightarrow> world \<Rightarrow> (error + response) \<times> world" where
  "fetch_listener cfg e req w =
     (let requestUrl = url req in
      if startsWith requestUrl (tileUrlPattern cfg)
      then cacheFirstThenNetwork e req (tileCacheName cfg) w
      else if isAppShellRequest cfg e req
      then cacheFirstThenNetwork e req (appShellCacheName cfg) w
      else fetch e (url req) w)"

subsection \<open>Install (lines 27 to 44)\<close>

text \<open>
  Every \<open>cache.add\<close> has its own \<open>catch\<close>, so its rejection is dropped and the next
  asset is tried. The additions are independent; the model runs them in list order.
\<close>

fun cachePromises :: "env \<Rightarrow> string \<Rightarrow> string list \<Rightarrow> world \<Rightarrow> world" where
  "cachePromises e name [] w = w"
| "cachePromises e name (urlToCache # rest) w =
     (case cache_add e name urlToCache w of (_, w1) \<Rightarrow> cachePromises e name rest w1)"

definition install :: "config \<Rightarrow> env \<Rightarrow> world \<Rightarrow> world" where
  "install cfg e w =
     (let w1 = caches_open (appShellCacheName cfg) w;
          w2 = cachePromises e (appShellCacheName cfg) (appShellFiles cfg) w1
      in w2\<lparr>skippedWaiting := True\<rparr>)"

subsection \<open>Activate (lines 47 to 65)\<close>

definition isOldCache :: "config \<Rightarrow> string \<Rightarrow> bool" where
  "isOldCache cfg cacheName =
     ((startsWith cacheName ''offline-map-appshell-'' \<and> cacheName \<noteq> appShellCacheName cfg)
      \<or> (startsWith cacheName ''offline-map-tiles-'' \<and> cacheName \<noteq> tileCacheName cfg))"

text \<open>
  \<open>Promise.all\<close> over the deletions: every deletion is started, and the first rejection,
  if there is one, is the outcome.
\<close>

fun deleteOldCaches :: "config \<Rightarrow> env \<Rightarrow> string list \<Rightarrow> world \<Rightarrow> error option \<times> world" where
  "deleteOldCaches cfg e [] w = (None, w)"
| "deleteOldCaches cfg e (cacheName # rest) w =
     (if isOldCache cfg cacheName then
        (case caches_delete e cacheName w of
           (Inl err, w1) \<Rightarrow> (case deleteOldCaches cfg e rest w1 of (_, w2) \<Rightarrow> (Some err, w2))
         | (Inr _, w1) \<Rightarrow> deleteOldCaches cfg e rest w1)
      else deleteOldCaches cfg e rest w)"

definition activate :: "config \<Rightarrow> env \<Rightarrow> world \<Rightarrow> (error + unit) \<times> world" where
  "activate cfg e w =
     (case deleteOldCaches cfg e (caches_keys w) w of
        (Some err, w1) \<Rightarrow> (Inl err, w1)
      | (None, w1) \<Rightarrow> (Inr (), w1\<lparr>claimed := True\<rparr>))"

subsection \<open>The message listener (lines 140 to 160)\<close>

text \<open>
  \<open>event.data\<close> is \<open>None\<close> when it is missing or falsy, otherwise an object
  given by its string properties (a value without properties is an object without
  \<open>action\<close>); \<open>event.source\<close> is the client that sent the message, if any.
\<close>

record message_event =
  data :: "(string \<times> string) list option"
  source :: "nat option"

definition postMessage :: "nat option \<Rightarrow> reply \<Rightarrow> world \<Rightarrow> world" where
  "postMessage src m w =
     (case src of None \<Rightarrow> w | Some client \<Rightarrow> w\<lparr>posted := posted w @ [(client, m)]\<rparr>)"

definition message_listener :: "config \<Rightarrow> env \<Rightarrow> message_event \<Rightarrow> world \<Rightarrow> world" where
  "message_listener cfg e event w =
     (case data event of
        None \<Rightarrow> w
      | Some obj \<Rightarrow>
          (if map_of obj ''action'' = Some ''deleteCache'' then
             (case caches_delete e (tileCacheName cfg) w of
                (Inr _, w1) \<Rightarrow>
                  postMessage (source event)
                    \<lparr>reply_status = ''cacheDeleted'', reply_error = None\<rparr> w1
              | (Inl err, w1) \<Rightarrow>
                  postMessage (source event)
                    \<lparr>reply_status = ''cacheDeleteFailed'', reply_error = Some (message err)\<rparr> w1)
           else w))"

subsection \<open>Well-formed worlds\<close>

text \<open>
  Response objects are numbered as they are created, so the body of an object that does
  not exist yet cannot have been read. Every operation of the model keeps this.
\<close>

definition wf_world :: "world \<Rightarrow> bool" where
  "wf_world w = (\<forall>i \<in> bodyUsed w. i < nextId w)"

subsection \<open>A concrete browser\<close>

text \<open>
  An application served from \<open>https://app.example\<close>: its style sheet and one page
  can be fetched, a map tile comes back opaque (a cross-origin image request), and
  everything else is unreachable.
\<close>

definition cssSnapshot :: snapshot where
  "cssSnapshot = \<lparr>status = 200, rtype = ''basic'', body = ''body { margin: 0 }''\<rparr>"

definition pageSnapshot :: snapshot where
  "pageSnapshot = \<lparr>status = 200, rtype = ''basic'', body = ''<html></html>''\<rparr>"

definition opaqueTile :: snapshot where
  "opaqueTile = \<lparr>status = 0, rtype = ''opaque'', body = []\<rparr>"

definition net0 :: "string \<Rightarrow> error + snapshot" where
  "net0 u =
     (if u = ''https://app.example/style.css'' then Inr cssSnapshot
      else if u = ''https://app.example/a.html'' then Inr pageSnapshot
      else if u = ''https://tile.openstreetmap.org/1/0/0.png'' then Inr opaqueTile
      else Inl (Error ''Failed to fetch''))"

definition env0 :: env where
  "env0 = \<lparr>network = net0, deleteFault = (\<lambda>name. None), putFault = (\<lambda>name req. None),
            origin = ''https://app.example''\<rparr>"

definition world0 :: world where
  "world0 = \<lparr>caches = [], fetched = [], nextId = 0, bodyUsed = {}, pending = [],
              posted = [], skippedWaiting = False, claimed = False\<rparr>"

definition cssRequest :: request where
  "cssRequest = \<lparr>url = ''https://app.example/style.css'', mode = ''no-cors'',
                  destination = ''style''\<rparr>"

definition hitWorld :: world where
  "hitWorld = world0\<lparr>caches := [(APP_SHELL_CACHE_NAME,
                                   [(''https://app.example/style.css'', cssSnapshot)])]\<rparr>"


definition tileRequest :: request where
  "tileRequest = \<lparr>url = ''https://tile.openstreetmap.org/1/0/0.png'', mode = ''no-cors'',
                   destination = ''image''\<rparr>"

text \<open>A request to a foreign origin for a URL that ends with a slash; not a navigation.\<close>

definition foreignRequest :: request where
  "foreignRequest = \<lparr>url = ''https://cdn.other.example/lib/'', mode = ''cors'',
                      destination = []\<rparr>"

text \<open>
  A browser that has run the worker for a while: a stale application-shell generation,
  the live one, downloaded tiles, and a cache that belongs to somebody else.
\<close>

definition tileSnapshot :: snapshot where
  "tileSnapshot = \<lparr>status = 200, rtype = ''cors'', body = ''PNG''\<rparr>"

definition usedWorld :: world where
  "usedWorld = world0\<lparr>caches :=
      [(''offline-map-appshell-v0'', [(''https://app.example/old.css'', cssSnapshot)]),
       (''offline-map-appshell-v1'', [(''https://app.example/style.css'', cssSnapshot)]),
       (''offline-map-tiles-v1'', [(''https://tile.openstreetmap.org/1/0/0.png'', tileSnapshot)]),
       (''leaflet-extras'', [])]\<rparr>"

text \<open>The next deployment: only the tile generation is bumped.\<close>

definition sw_v2 :: config where
  "sw_v2 = sw\<lparr>tileCacheName := ''offline-map-tiles-v2''\<rparr>"

text \<open>The worker with the asset list of the specification's scenario A.\<close>

definition scenarioA :: config where
  "scenarioA = sw\<lparr>appShellFiles := [''/a.html'', ''/b.css'']\<rparr>"

text \<open>The command the page sends, from client 7; and a storage that fails on the tile cache.\<close>

definition deleteEvent :: message_event where
  "deleteEvent = \<lparr>data = Some [(''action'', ''deleteCache'')], source = Some 7\<rparr>"

definition envFault :: env where
  "envFault = env0\<lparr>deleteFault :=
      (\<lambda>name. if name = TILE_CACHE_NAME then Some (Error ''QuotaExceededError'') else None)\<rparr>"

text \<open>A browser whose storage is full: every \<open>cache.put\<close> is rejected.\<close>

definition envQuota :: env where
  "envQuota = env0\<lparr>putFault := (\<lambda>name req. Some (Error ''QuotaExceededError''))\<rparr>"

subsection \<open>What \<open>cache.add\<close> would store\<close>

text \<open>
  The snapshot \<open>cache.add\<close> stores for a resolved URL: the network's answer when there
  is one and its status is acceptable, nothing otherwise.
\<close>

definition fetchable :: "env \<Rightarrow> string \<Rightarrow> snapshot option" where
  "fetchable e k =
     (case network e k of Inl err \<Rightarrow> None | Inr s \<Rightarrow> if addable s then Some s else None)"

section \<open>Properties\<close>

subsection \<open>Strings\<close>

lemma startsWith_iff: "startsWith s p \<longleftrightarrow> (\<exists>t. s = p @ t)"
  by (induction s p rule: startsWith.induct) auto

lemma endsWith_iff: "endsWith s p \<longleftrightarrow> (\<exists>t. s = t @ p)"
proof -
  have "endsWith s p \<longleftrightarrow> (\<exists>t. rev s = rev p @ t)"
    by (simp add: endsWith_def startsWith_iff)
  also have "\<dots> \<longleftrightarrow> (\<exists>t. s = t @ p)"
  proof
    assume "\<exists>t. rev s = rev p @ t"
    then obtain t where "rev s = rev p @ t" ..
    then have "rev (rev s) = rev (rev p @ t)" by simp
    then have "s = rev t @ p" by simp
    then show "\<exists>t. s = t @ p" ..
  next
    assume "\<exists>t. s = t @ p"
    then obtain t where "s = t @ p" ..
    then have "rev s = rev p @ rev t" by simp
    then show "\<exists>t. rev s = rev p @ t" ..
  qed
  finally show ?thesis .
qed

text \<open>Two prefixes of one string: the shorter is a prefix of the longer.\<close>

lemma startsWith_comparable:
  "startsWith s p \<Longrightarrow> startsWith s q \<Longrightarrow> length q \<le> length p \<Longrightarrow> startsWith p q"
proof (induction s arbitrary: p q)
  case Nil
  then show ?case by (cases p; cases q) auto
next
  case (Cons c s)
  show ?case
  proof (cases q)
    case Nil
    then show ?thesis by simp
  next
    case q: (Cons d q')
    with Cons.prems obtain p' where p: "p = d # p'"
      by (cases p) auto
    from Cons.prems p q have "startsWith s p'" "startsWith s q'" "length q' \<le> length p'"
      by auto
    then have "startsWith p' q'" by (rule Cons.IH)
    with p q show ?thesis by simp
  qed
qed

text \<open>No cache name belongs to both classes.\<close>

lemma class_prefixes_disjoint:
  assumes "startsWith n ''offline-map-appshell-''"
  shows "\<not> startsWith n ''offline-map-tiles-''"
proof
  assume "startsWith n ''offline-map-tiles-''"
  with assms have "startsWith ''offline-map-appshell-'' ''offline-map-tiles-''"
    by (rule startsWith_comparable) simp
  then show False by simp
qed

subsection \<open>Cache Storage\<close>

lemmas model_defs =
  install_def activate_def caches_open_def caches_keys_def caches_delete_def cache_add_def
  cache_put_def store_def fetch_def new_response_def resolveUrl_def addable_def
  isOldCache_def partition_of_def lookup_def Let_def

lemmas example_defs =
  sw_v2_def sw_def APP_SHELL_CACHE_NAME_def TILE_CACHE_NAME_def TILE_URL_PATTERN_def
  APP_SHELL_FILES_def env0_def net0_def world0_def usedWorld_def cssSnapshot_def
  pageSnapshot_def opaqueTile_def tileSnapshot_def scenarioA_def

lemma partition_of_iff_key: "partition_of w n \<noteq> None \<longleftrightarrow> n \<in> set (caches_keys w)"
  by (simp add: partition_of_def caches_keys_def map_of_eq_None_iff)

lemma map_of_filter_fst:
  "map_of (filter (\<lambda>p. Q (fst p)) xs) k = (if Q k then map_of xs k else None)"
  by (induction xs) auto

lemma filter_absent:
  "map_of cs name = None \<Longrightarrow> filter (\<lambda>p. fst p \<noteq> name) cs = cs"
  by (induction cs) (auto split: if_splits)


lemma partition_open_same:
  "partition_of (caches_open P w) P = Some (case partition_of w P of None \<Rightarrow> [] | Some c \<Rightarrow> c)"
  by (auto simp: caches_open_def partition_of_def map_add_def split: option.splits)

lemma partition_open_other: "n \<noteq> P \<Longrightarrow> partition_of (caches_open P w) n = partition_of w n"
  by (auto simp: caches_open_def partition_of_def map_add_def split: option.splits)

lemma lookup_open: "lookup (caches_open P w) n k = lookup w n k"
  by (cases "n = P")
     (auto simp: lookup_def partition_open_same partition_open_other split: option.splits)

lemma open_fields:
  "fetched (caches_open P w) = fetched w"
  "nextId (caches_open P w) = nextId w"
  "bodyUsed (caches_open P w) = bodyUsed w"
  "pending (caches_open P w) = pending w"
  by (simp_all add: caches_open_def split: option.splits)

lemma map_of_store: "map_of (store k s c) k' = (if k' = k then Some s else map_of c k')"
  by (induction c) (auto simp: store_def)

lemma map_of_put:
  "map_of (map (\<lambda>p. if fst p = name then (fst p, f (snd p)) else p) cs) n =
     (if n = name then map_option f (map_of cs n) else map_of cs n)"
  by (induction cs) auto

lemma lookup_cache_put:
  assumes "rid r \<notin> bodyUsed w"
  shows "lookup (snd (cache_put name k r w)) n k' =
           (if n = name \<and> k' = k \<and> partition_of w name \<noteq> None then Some (content r)
            else lookup w n k')"
  using assms
  by (auto simp: cache_put_def lookup_def partition_of_def map_of_put map_of_store
           split: option.splits)

lemma cache_put_partition_other:
  "n \<noteq> name \<Longrightarrow> partition_of (snd (cache_put name k r w)) n = partition_of w n"
  by (simp add: cache_put_def partition_of_def map_of_put)

lemma cache_put_keys: "caches_keys (snd (cache_put name k r w)) = caches_keys w"
proof -
  have "map fst (map (\<lambda>p. if fst p = name then (fst p, f (snd p)) else p) cs) = map fst cs"
    for f :: "cache \<Rightarrow> cache" and cs
    by (induction cs) auto
  then show ?thesis
    by (simp add: cache_put_def caches_keys_def)
qed

lemma fetch_caches: "caches (snd (fetch e u w)) = caches w"
  by (simp add: fetch_def new_response_def Let_def split: sum.splits)

lemma wf_world0: "wf_world world0"
  by (simp add: wf_world_def world0_def)

lemma wf_fetch: "wf_world w \<Longrightarrow> wf_world (snd (fetch e u w))"
  by (auto simp: wf_world_def fetch_def new_response_def Let_def split: sum.splits)

subsection \<open>The cache strategy\<close>



text \<open>
  C2. A request with no entry in partition \<open>P\<close> whose fetch answers with status 200 and
  type \<open>basic\<close>: the caller gets the response object of the fetch, its body unread, after
  one network request. A put of another object with the same content (the clone, the
  one object whose body has been taken) under the request is pending, and it is the
  newest one. The partition has no entry for the request yet when the response is
  returned. When that put settles, the entry is there with the content of the returned
  response if the browser accepts the put; if it rejects it, the error reaches nobody
  and the storage stays as it is.
\<close>

theorem populate_on_miss:
  assumes miss: "lookup w P (url req) = None"
      and net: "network e (url req) = Inr s"
      and ok: "status s = 200 \<and> rtype s = ''basic''"
      and wf: "wf_world w"
  shows "\<exists>r c w'. cacheFirstThenNetwork e req P w = (Inr r, w')
          \<and> content r = s
          \<and> rid r \<notin> bodyUsed w'
          \<and> fetched w' = fetched w @ [url req]
          \<and> lookup w' P (url req) = None
          \<and> pending w' = pending w @ [(P, req, c)]
          \<and> content c = content r \<and> rid c \<noteq> rid r
          \<and> bodyUsed w' = insert (rid c) (bodyUsed w)
          \<and> (case putFault e P req of
                None \<Rightarrow>
                  lookup (snd (settle_put e (P, req, c) w')) P (url req) = Some (content r)
              | Some err \<Rightarrow>
                  fst (settle_put e (P, req, c) w') = Inl err
                  \<and> caches (snd (settle_put e (P, req, c) w')) = caches w')"
proof -
  let ?w0 = "caches_open P w"
  let ?w2 = "?w0\<lparr>fetched := fetched w @ [url req], nextId := Suc (nextId w)\<rparr>"
  let ?orig = "\<lparr>rid = nextId w, content = s\<rparr>"
  let ?copy = "\<lparr>rid = Suc (nextId w), content = s\<rparr>"
  let ?w3 = "?w2\<lparr>nextId := Suc (Suc (nextId w))\<rparr>"
  let ?w4 = "?w3\<lparr>bodyUsed := insert (Suc (nextId w)) (bodyUsed w),
                  pending := pending w @ [(P, req, ?copy)]\<rparr>"
  let ?done = "settle_put e (P, req, ?copy) ?w4"
  have m: "cache_match P (url req) ?w0 = (None, ?w0)"
    using miss by (simp add: cache_match_def lookup_open)
  have f: "fetch e (url req) ?w0 = (Inr ?orig, ?w2)"
    using net by (simp add: fetch_def new_response_def open_fields)
  have unused: "nextId w \<notin> bodyUsed w" "Suc (nextId w) \<notin> bodyUsed w"
    using wf by (auto simp: wf_world_def)
  have c: "clone ?orig ?w2 = (Inr ?copy, ?w3)"
    using unused by (simp add: clone_def new_response_def open_fields)
  have run: "cacheFirstThenNetwork e req P w = (Inr ?orig, ?w4)"
    using ok unused
    by (simp add: cacheFirstThenNetwork_def m f c begin_put_def open_fields)
  have same: "lookup ?w4 n k = lookup w n k" for n k
    using lookup_open[of P w n k] by (simp add: lookup_def partition_of_def)
  have absent: "lookup ?w4 P (url req) = None"
    using same miss by simp
  have there: "partition_of ?w4 P \<noteq> None"
    using partition_open_same[of P w] by (simp add: partition_of_def)
  have settled: "case putFault e P req of
                None \<Rightarrow> lookup (snd ?done) P (url req) = Some (content ?orig)
              | Some err \<Rightarrow> fst ?done = Inl err \<and> caches (snd ?done) = caches ?w4"
  proof (cases "putFault e P req")
    case None
    then have "lookup (snd ?done) P (url req) = Some s"
      using there
      by (auto simp: settle_put_def lookup_def partition_of_def map_of_put map_of_store
               split: option.splits)
    with None show ?thesis by simp
  next
    case (Some err)
    then show ?thesis by (simp add: settle_put_def)
  qed
  have "rid ?orig \<notin> bodyUsed ?w4"
    using unused by simp
  moreover have "fetched ?w4 = fetched w @ [url req]"
    by simp
  moreover have "pending ?w4 = pending w @ [(P, req, ?copy)]"
    by simp
  moreover have "content ?copy = content ?orig \<and> rid ?copy \<noteq> rid ?orig"
    by simp
  moreover have "bodyUsed ?w4 = insert (rid ?copy) (bodyUsed w)"
    by simp
  moreover have "content ?orig = s"
    by simp
  ultimately show ?thesis
    using run absent settled by blast
qed

theorem populate_on_miss_witness:
  "lookup world0 APP_SHELL_CACHE_NAME (url cssRequest) = None
   \<and> network env0 (url cssRequest) = Inr cssSnapshot
   \<and> network envQuota (url cssRequest) = Inr cssSnapshot
   \<and> status cssSnapshot = 200 \<and> rtype cssSnapshot = ''basic''
   \<and> wf_world world0
   \<and> putFault env0 APP_SHELL_CACHE_NAME cssRequest = None
   \<and> (\<exists>r c w'. cacheFirstThenNetwork env0 cssRequest APP_SHELL_CACHE_NAME world0 = (Inr r, w')
          \<and> content r = cssSnapshot
          \<and> rid r \<notin> bodyUsed w'
          \<and> lookup w' APP_SHELL_CACHE_NAME (url cssRequest) = None
          \<and> pending w' = [(APP_SHELL_CACHE_NAME, cssRequest, c)]
          \<and> lookup (snd (settle_put env0 (APP_SHELL_CACHE_NAME, cssRequest, c) w'))
               APP_SHELL_CACHE_NAME (url cssRequest) = Some cssSnapshot)
   \<and> putFault envQuota APP_SHELL_CACHE_NAME cssRequest = Some (Error ''QuotaExceededError'')
   \<and> (\<exists>r c w'. cacheFirstThenNetwork envQuota cssRequest APP_SHELL_CACHE_NAME world0 = (Inr r, w')
          \<and> content r = cssSnapshot
          \<and> pending w' = [(APP_SHELL_CACHE_NAME, cssRequest, c)]
          \<and> fst (settle_put envQuota (APP_SHELL_CACHE_NAME, cssRequest, c) w')
               = Inl (Error ''QuotaExceededError'')
          \<and> caches (snd (settle_put envQuota (APP_SHELL_CACHE_NAME, cssRequest, c) w'))
               = caches w')"
proof -
  have miss: "lookup world0 APP_SHELL_CACHE_NAME (url cssRequest) = None"
    by (simp add: lookup_def partition_of_def world0_def)
  have net: "network env0 (url cssRequest) = Inr cssSnapshot"
    by (simp add: env0_def net0_def cssRequest_def)
  have netq: "network envQuota (url cssRequest) = Inr cssSnapshot"
    by (simp add: envQuota_def env0_def net0_def cssRequest_def)
  have ok: "status cssSnapshot = 200 \<and> rtype cssSnapshot = ''basic''"
    by (simp add: cssSnapshot_def)
  have wf: "wf_world world0"
    by (simp add: wf_world_def world0_def)
  have accept: "putFault env0 APP_SHELL_CACHE_NAME cssRequest = None"
    by (simp add: env0_def)
  have reject: "putFault envQuota APP_SHELL_CACHE_NAME cssRequest
                  = Some (Error ''QuotaExceededError'')"
    by (simp add: envQuota_def)
  have none: "pending world0 = []"
    by (simp add: world0_def)
  from populate_on_miss [OF miss net ok wf] accept none
  have first: "\<exists>r c w'. cacheFirstThenNetwork env0 cssRequest APP_SHELL_CACHE_NAME world0 = (Inr r, w')
          \<and> content r = cssSnapshot
          \<and> rid r \<notin> bodyUsed w'
          \<and> lookup w' APP_SHELL_CACHE_NAME (url cssRequest) = None
          \<and> pending w' = [(APP_SHELL_CACHE_NAME, cssRequest, c)]
          \<and> lookup (snd (settle_put env0 (APP_SHELL_CACHE_NAME, cssRequest, c) w'))
               APP_SHELL_CACHE_NAME (url cssRequest) = Some cssSnapshot"
    by (simp only: option.case append_Nil) metis
  from populate_on_miss [OF miss netq ok wf] reject none
  have second: "\<exists>r c w'. cacheFirstThenNetwork envQuota cssRequest APP_SHELL_CACHE_NAME world0 = (Inr r, w')
          \<and> content r = cssSnapshot
          \<and> pending w' = [(APP_SHELL_CACHE_NAME, cssRequest, c)]
          \<and> fst (settle_put envQuota (APP_SHELL_CACHE_NAME, cssRequest, c) w')
               = Inl (Error ''QuotaExceededError'')
          \<and> caches (snd (settle_put envQuota (APP_SHELL_CACHE_NAME, cssRequest, c) w'))
               = caches w'"
    by (simp only: option.case append_Nil) metis
  from miss net netq ok wf accept reject first second show ?thesis
    by (intro conjI) simp_all
qed

text \<open>
  The same request on the concrete browser, evaluated: when the response is returned
  the partition has no entry for the request; and on the browser whose storage is full
  it has none after the put has settled either.
\<close>

theorem entry_absent_at_fulfilment:
  "fst (cacheFirstThenNetwork env0 cssRequest APP_SHELL_CACHE_NAME world0)
     = Inr \<lparr>rid = 0, content = cssSnapshot\<rparr>
   \<and> lookup (snd (cacheFirstThenNetwork env0 cssRequest APP_SHELL_CACHE_NAME world0))
        APP_SHELL_CACHE_NAME (url cssRequest) = None
   \<and> pending (snd (cacheFirstThenNetwork env0 cssRequest APP_SHELL_CACHE_NAME world0))
        = [(APP_SHELL_CACHE_NAME, cssRequest, \<lparr>rid = 1, content = cssSnapshot\<rparr>)]
   \<and> lookup (snd (settle_put envQuota
                     (APP_SHELL_CACHE_NAME, cssRequest, \<lparr>rid = 1, content = cssSnapshot\<rparr>)
                     (snd (cacheFirstThenNetwork envQuota cssRequest APP_SHELL_CACHE_NAME world0))))
        APP_SHELL_CACHE_NAME (url cssRequest) = None"
  by (simp add: cacheFirstThenNetwork_def cache_match_def clone_def begin_put_def settle_put_def
                model_defs env0_def envQuota_def net0_def world0_def cssRequest_def
                cssSnapshot_def APP_SHELL_CACHE_NAME_def)





text \<open>
  Whatever the branch taken, the strategy leaves the set of caches as \<open>caches.open\<close>
  made it: the partition it was given exists afterwards.
\<close>

lemma cacheFirstThenNetwork_keys:
  "caches_keys (snd (cacheFirstThenNetwork e req P w)) = caches_keys (caches_open P w)"
proof -
  let ?w0 = "caches_open P w"
  show ?thesis
  proof (cases "lookup ?w0 P (url req)")
    case (Some s)
    then show ?thesis
      by (simp add: cacheFirstThenNetwork_def cache_match_def new_response_def caches_keys_def
                    Let_def)
  next
    case None
    then have m: "cache_match P (url req) ?w0 = (None, ?w0)"
      by (simp add: cache_match_def)
    obtain res w2 where f: "fetch e (url req) ?w0 = (res, w2)"
      by (cases "fetch e (url req) ?w0")
    then have k2: "caches_keys w2 = caches_keys ?w0"
      using fetch_caches[of e "url req" ?w0] by (simp add: caches_keys_def)
    show ?thesis
    proof (cases res)
      case (Inl err)
      with m f k2 show ?thesis by (simp add: cacheFirstThenNetwork_def)
    next
      case (Inr r)
      show ?thesis
      proof (cases "status (content r) = 200 \<and> rtype (content r) = ''basic''")
        case False
        with Inr m f k2 show ?thesis by (auto simp: cacheFirstThenNetwork_def)
      next
        case True
        obtain cres w3 where c: "clone r w2 = (cres, w3)"
          by (cases "clone r w2")
        then have k3: "caches_keys w3 = caches_keys w2"
          by (auto simp: clone_def new_response_def caches_keys_def split: if_splits)
        show ?thesis
        proof (cases cres)
          case (Inl err)
          with True Inr m f c k2 k3 show ?thesis by (simp add: cacheFirstThenNetwork_def)
        next
          case r1: (Inr r1)
          with True Inr m f c k2 k3 show ?thesis
            by (auto simp: cacheFirstThenNetwork_def begin_put_def caches_keys_def Let_def)
        qed
      qed
    qed
  qed
qed

lemma cacheFirstThenNetwork_opens:
  "partition_of (snd (cacheFirstThenNetwork e req P w)) P \<noteq> None"
proof -
  have "partition_of (caches_open P w) P \<noteq> None"
    by (simp add: partition_open_same)
  then show ?thesis
    by (simp only: partition_of_iff_key cacheFirstThenNetwork_keys)
qed

lemma wf_cacheFirstThenNetwork:
  assumes "wf_world w"
  shows "wf_world (snd (cacheFirstThenNetwork e req P w))"
proof -
  let ?w0 = "caches_open P w"
  have wf0: "wf_world ?w0"
    using assms by (simp add: wf_world_def open_fields)
  show ?thesis
  proof (cases "lookup ?w0 P (url req)")
    case (Some s)
    then show ?thesis
      using wf0
      by (auto simp: cacheFirstThenNetwork_def cache_match_def new_response_def Let_def
                     wf_world_def)
  next
    case None
    then have m: "cache_match P (url req) ?w0 = (None, ?w0)"
      by (simp add: cache_match_def)
    show ?thesis
    proof (cases "network e (url req)")
      case (Inl err)
      then show ?thesis
        using wf0 m by (auto simp: cacheFirstThenNetwork_def fetch_def Let_def wf_world_def)
    next
      case (Inr s)
      then show ?thesis
        using wf0 m
        by (auto simp: cacheFirstThenNetwork_def fetch_def clone_def begin_put_def
                       new_response_def Let_def wf_world_def)
    qed
  qed
qed

lemma wf_settle_put: "wf_world w \<Longrightarrow> wf_world (snd (settle_put e p w))"
  by (cases p) (auto simp: settle_put_def wf_world_def Let_def split: option.splits)

subsection \<open>Classification\<close>

text \<open>
  C10. The asset list of the source contains \<open>/\<close> and is matched by suffix, so a
  request whose URL ends with \<open>/\<close> and does not start with the tile prefix is an
  application-shell request, whatever its origin, mode and destination, and the fetch
  listener serves it cache-first from the application-shell partition.
\<close>

theorem trailing_slash_is_app_shell:
  assumes slash: "endsWith (url req) ''/''"
      and notile: "\<not> startsWith (url req) TILE_URL_PATTERN"
  shows "isAppShellRequest sw e req
       \<and> fetch_listener sw e req w = cacheFirstThenNetwork e req APP_SHELL_CACHE_NAME w"
proof -
  have "list_ex (\<lambda>fileUrl. endsWith (url req) fileUrl) APP_SHELL_FILES"
    using slash unfolding APP_SHELL_FILES_def by (simp only: list_ex_Cons_iff) blast
  then have shell: "isAppShellRequest sw e req"
    by (simp add: isAppShellRequest_def sw_def Let_def)
  then show ?thesis
    using notile by (simp add: fetch_listener_def sw_def Let_def)
qed

theorem trailing_slash_is_app_shell_witness:
  "endsWith (url foreignRequest) ''/''
   \<and> \<not> startsWith (url foreignRequest) TILE_URL_PATTERN
   \<and> \<not> startsWith (url foreignRequest) (origin env0)
   \<and> mode foreignRequest \<noteq> ''navigate''
   \<and> isAppShellRequest sw env0 foreignRequest
   \<and> fetch_listener sw env0 foreignRequest world0
        = cacheFirstThenNetwork env0 foreignRequest APP_SHELL_CACHE_NAME world0"
proof -
  have slash: "endsWith (url foreignRequest) ''/''"
    by (simp add: foreignRequest_def endsWith_def)
  have notile: "\<not> startsWith (url foreignRequest) TILE_URL_PATTERN"
    by (simp add: foreignRequest_def TILE_URL_PATTERN_def)
  have foreign: "\<not> startsWith (url foreignRequest) (origin env0)"
    by (simp add: foreignRequest_def env0_def)
  have nonav: "mode foreignRequest \<noteq> ''navigate''"
    by (simp add: foreignRequest_def)
  from trailing_slash_is_app_shell [OF slash notile, of env0 world0] slash notile foreign nonav
  show ?thesis by blast
qed

lemma wf_fetch_listener: "wf_world w \<Longrightarrow> wf_world (snd (fetch_listener cfg e req w))"
  by (simp add: fetch_listener_def Let_def wf_cacheFirstThenNetwork wf_fetch)

subsection \<open>Install\<close>

lemma cache_add_partition_other:
  assumes "n \<noteq> name"
  shows "partition_of (snd (cache_add e name u w)) n = partition_of w n"
proof (cases "fetch e (resolveUrl e u) w")
  case (Pair res w1)
  then have c: "caches w1 = caches w"
    using fetch_caches[of e "resolveUrl e u" w] by simp
  then have p: "partition_of w1 n = partition_of w n"
    by (simp add: partition_of_def)
  show ?thesis
  proof (cases res)
    case (Inl err)
    with Pair p show ?thesis by (simp add: cache_add_def)
  next
    case (Inr r)
    with Pair p cache_put_partition_other[OF assms, of k r w1 for k] show ?thesis
      by (simp add: cache_add_def)
  qed
qed

lemma cache_add_keys: "caches_keys (snd (cache_add e name u w)) = caches_keys w"
proof (cases "fetch e (resolveUrl e u) w")
  case (Pair res w1)
  then have "caches w1 = caches w"
    using fetch_caches[of e "resolveUrl e u" w] by simp
  then have k: "caches_keys w1 = caches_keys w"
    by (simp add: caches_keys_def)
  show ?thesis
  proof (cases res)
    case (Inl err)
    with Pair k show ?thesis by (simp add: cache_add_def)
  next
    case (Inr r)
    with Pair k cache_put_keys[of name _ r w1] show ?thesis
      by (simp add: cache_add_def)
  qed
qed

text \<open>
  One \<open>cache.add\<close> into an existing cache: the URL is requested; the entry of the
  resolved URL becomes the fetched snapshot when there is an acceptable one, and nothing
  else changes.
\<close>

lemma cache_add_effect:
  assumes wf: "wf_world w" and ex: "partition_of w name \<noteq> None"
  shows "wf_world (snd (cache_add e name u w))"
    and "fetched (snd (cache_add e name u w)) = fetched w @ [resolveUrl e u]"
    and "lookup (snd (cache_add e name u w)) n k =
           (if n = name \<and> k = resolveUrl e u
            then (case fetchable e k of Some s \<Rightarrow> Some s | None \<Rightarrow> lookup w n k)
            else lookup w n k)"
proof -
  let ?u = "resolveUrl e u"
  let ?w1 = "w\<lparr>fetched := fetched w @ [?u]\<rparr>"
  have unused: "nextId w \<notin> bodyUsed w"
    using wf by (auto simp: wf_world_def)
  have same1: "lookup ?w1 n k = lookup w n k"
    by (simp add: lookup_def partition_of_def)
  show "wf_world (snd (cache_add e name u w))"
    using wf by (auto simp: cache_add_def fetch_def new_response_def cache_put_def wf_world_def
                  Let_def split: sum.splits)
  show "fetched (snd (cache_add e name u w)) = fetched w @ [resolveUrl e u]"
    by (auto simp: cache_add_def fetch_def new_response_def cache_put_def
                  Let_def split: sum.splits)
  show "lookup (snd (cache_add e name u w)) n k =
           (if n = name \<and> k = resolveUrl e u
            then (case fetchable e k of Some s \<Rightarrow> Some s | None \<Rightarrow> lookup w n k)
            else lookup w n k)"
  proof (cases "network e ?u")
    case (Inl err)
    then show ?thesis
      using same1 by (simp add: cache_add_def fetch_def fetchable_def Let_def)
  next
    case (Inr s)
    let ?r = "\<lparr>rid = nextId w, content = s\<rparr>"
    let ?w2 = "?w1\<lparr>nextId := Suc (nextId w)\<rparr>"
    have f: "fetch e ?u w = (Inr ?r, ?w2)"
      using Inr by (simp add: fetch_def new_response_def Let_def)
    have same2: "lookup ?w2 n k = lookup w n k"
      by (simp add: lookup_def partition_of_def)
    show ?thesis
    proof (cases "addable s")
      case False
      then show ?thesis
        using Inr f same2 by (simp add: cache_add_def fetchable_def)
    next
      case True
      have nu: "rid ?r \<notin> bodyUsed ?w2"
        using unused by simp
      have ex2: "partition_of ?w2 name \<noteq> None"
        using ex by (simp add: partition_of_def)
      have "lookup (snd (cache_put name ?u ?r ?w2)) n k =
              (if n = name \<and> k = ?u then Some s else lookup w n k)"
        using lookup_cache_put[OF nu, of name ?u n k] ex2 same2 by simp
      then show ?thesis
        using True Inr f by (simp add: cache_add_def fetchable_def)
    qed
  qed
qed

lemma cachePromises_partition_other:
  "n \<noteq> name \<Longrightarrow> partition_of (cachePromises e name us w) n = partition_of w n"
proof (induction us arbitrary: w)
  case Nil
  then show ?case by simp
next
  case (Cons u us)
  obtain res w1 where s: "cache_add e name u w = (res, w1)"
    by (cases "cache_add e name u w")
  then have "partition_of w1 n = partition_of w n"
    using cache_add_partition_other[OF Cons.prems, of e u w] by simp
  with Cons s show ?case by simp
qed


text \<open>The whole list: a rejected addition does not stop the ones after it.\<close>

lemma cachePromises_effect:
  assumes "wf_world w" and "partition_of w name \<noteq> None"
  shows "wf_world (cachePromises e name us w)
       \<and> fetched (cachePromises e name us w) = fetched w @ map (resolveUrl e) us
       \<and> lookup (cachePromises e name us w) n k =
           (if n = name \<and> k \<in> set (map (resolveUrl e) us)
            then (case fetchable e k of Some s \<Rightarrow> Some s | None \<Rightarrow> lookup w n k)
            else lookup w n k)"
  using assms
proof (induction us arbitrary: w)
  case Nil
  then show ?case by simp
next
  case (Cons u us)
  let ?w1 = "snd (cache_add e name u w)"
  have step: "cachePromises e name (u # us) w = cachePromises e name us ?w1"
    by (simp split: prod.splits)
  have wf1: "wf_world ?w1"
    using cache_add_effect(1)[OF Cons.prems] .
  have ex1: "partition_of ?w1 name \<noteq> None"
    using Cons.prems(2) by (simp only: partition_of_iff_key cache_add_keys)
  have f1: "fetched ?w1 = fetched w @ [resolveUrl e u]"
    using cache_add_effect(2)[OF Cons.prems] .
  note l1 = cache_add_effect(3)[OF Cons.prems, of e u]
  from Cons.IH[OF wf1 ex1] show ?case
    unfolding step by (auto simp: f1 l1 split: option.splits)
qed

lemma install_partition_other:
  assumes "n \<noteq> appShellCacheName cfg"
  shows "partition_of (install cfg e w) n = partition_of w n"
proof -
  have "partition_of (install cfg e w) n
          = partition_of (cachePromises e (appShellCacheName cfg) (appShellFiles cfg)
                           (caches_open (appShellCacheName cfg) w)) n"
    by (simp add: install_def partition_of_def Let_def)
  then show ?thesis
    using assms by (simp add: cachePromises_partition_other partition_open_other)
qed

lemma wf_install:
  assumes "wf_world w"
  shows "wf_world (install cfg e w)"
proof -
  let ?w1 = "caches_open (appShellCacheName cfg) w"
  have "wf_world ?w1"
    using assms by (simp add: wf_world_def open_fields)
  moreover have "partition_of ?w1 (appShellCacheName cfg) \<noteq> None"
    by (simp add: partition_open_same)
  ultimately have "wf_world (cachePromises e (appShellCacheName cfg) (appShellFiles cfg) ?w1)"
    using cachePromises_effect by blast
  then show ?thesis
    by (simp add: install_def Let_def wf_world_def)
qed



subsection \<open>Activate\<close>

text \<open>
  The sweep removes exactly the listed caches that are old and whose deletion does not
  fail, keeps the order of the others, and reports a failure when one deletion failed.
\<close>

lemma deleteOldCaches_caches:
  "caches (snd (deleteOldCaches cfg e ns w)) =
     filter (\<lambda>p. \<not> (fst p \<in> set ns \<and> isOldCache cfg (fst p) \<and> deleteFault e (fst p) = None))
       (caches w)"
proof (induction ns arbitrary: w)
  case Nil
  then show ?case by simp
next
  case (Cons n ns)
  let ?del = "\<lambda>ms p. fst p \<in> set ms \<and> isOldCache cfg (fst p) \<and> deleteFault e (fst p) = None"
  show ?case
  proof (cases "isOldCache cfg n \<and> deleteFault e n = None")
    case False
    have same: "filter (\<lambda>p. \<not> ?del ns p) (caches w) = filter (\<lambda>p. \<not> ?del (n # ns) p) (caches w)"
      by (rule filter_cong) (use False in auto)
    have "snd (deleteOldCaches cfg e (n # ns) w) = snd (deleteOldCaches cfg e ns w)"
      using False by (auto simp: caches_delete_def split: prod.splits option.splits)
    then have "caches (snd (deleteOldCaches cfg e (n # ns) w))
                 = filter (\<lambda>p. \<not> ?del ns p) (caches w)"
      using Cons.IH[of w] by (simp only:)
    then show ?thesis
      by (simp only: same)
  next
    case True
    let ?w1 = "w\<lparr>caches := filter (\<lambda>p. fst p \<noteq> n) (caches w)\<rparr>"
    have step: "deleteOldCaches cfg e (n # ns) w = deleteOldCaches cfg e ns ?w1"
      using True by (simp add: caches_delete_def)
    have same: "filter (\<lambda>p. \<not> ?del ns p) (filter (\<lambda>p. fst p \<noteq> n) (caches w))
            = filter (\<lambda>p. \<not> ?del (n # ns) p) (caches w)"
      unfolding filter_filter by (rule filter_cong) (use True in auto)
    have "caches (snd (deleteOldCaches cfg e (n # ns) w))
            = filter (\<lambda>p. \<not> ?del ns p) (caches ?w1)"
      using Cons.IH[of ?w1] by (simp only: step)
    also have "caches ?w1 = filter (\<lambda>p. fst p \<noteq> n) (caches w)"
      by simp
    finally show ?thesis
      by (simp only: same)
  qed
qed

lemma deleteOldCaches_ok:
  "fst (deleteOldCaches cfg e ns w) = None \<longleftrightarrow>
     (\<forall>n \<in> set ns. isOldCache cfg n \<longrightarrow> deleteFault e n = None)"
proof (induction ns arbitrary: w)
  case Nil
  then show ?case by simp
next
  case (Cons n ns)
  show ?case
  proof (cases "isOldCache cfg n")
    case False
    then show ?thesis using Cons.IH[of w] by simp
  next
    case True
    show ?thesis
    proof (cases "deleteFault e n")
      case None
      then show ?thesis
        using True Cons.IH[of "w\<lparr>caches := filter (\<lambda>p. fst p \<noteq> n) (caches w)\<rparr>"]
        by (simp add: caches_delete_def)
    next
      case (Some err)
      then show ?thesis
        using True by (simp add: caches_delete_def split: prod.splits)
    qed
  qed
qed

lemma deleteOldCaches_ids:
  "nextId (snd (deleteOldCaches cfg e ns w)) = nextId w
   \<and> bodyUsed (snd (deleteOldCaches cfg e ns w)) = bodyUsed w"
  by (induction ns arbitrary: w)
     (simp_all add: caches_delete_def case_prod_unfold split: option.splits)

lemma activate_caches:
  assumes "activate cfg e w = (Inr (), w')"
  shows "caches w' = filter (\<lambda>p. \<not> isOldCache cfg (fst p)) (caches w)"
proof -
  obtain r w1 where d: "deleteOldCaches cfg e (caches_keys w) w = (r, w1)"
    by (cases "deleteOldCaches cfg e (caches_keys w) w")
  with assms have r: "r = None" and w': "w' = w1\<lparr>claimed := True\<rparr>"
    by (auto simp: activate_def split: option.splits)
  have ok: "\<forall>n \<in> set (caches_keys w). isOldCache cfg n \<longrightarrow> deleteFault e n = None"
    using deleteOldCaches_ok[of cfg e "caches_keys w" w] d r by simp
  have "caches w1 = filter (\<lambda>p. \<not> (fst p \<in> set (caches_keys w) \<and> isOldCache cfg (fst p)
                                   \<and> deleteFault e (fst p) = None)) (caches w)"
    using deleteOldCaches_caches[of cfg e "caches_keys w" w] d by simp
  also have "\<dots> = filter (\<lambda>p. \<not> isOldCache cfg (fst p)) (caches w)"
    using ok by (intro filter_cong) (auto simp: caches_keys_def)
  finally show ?thesis
    using w' by simp
qed

lemma activate_partition:
  assumes "activate cfg e w = (Inr (), w')"
  shows "partition_of w' n = (if isOldCache cfg n then None else partition_of w n)"
  using activate_caches[OF assms] map_of_filter_fst[of "\<lambda>n. \<not> isOldCache cfg n" "caches w" n]
  by (simp add: partition_of_def)

lemma wf_activate: "wf_world w \<Longrightarrow> wf_world (snd (activate cfg e w))"
  using deleteOldCaches_ids[of cfg e "caches_keys w" w]
  by (auto simp: activate_def wf_world_def split: prod.splits option.splits)

text \<open>
  C5. When Activate has completed (no deletion failed), no partition is left whose name
  starts with \<open>offline-map-appshell-\<close> and is not the live application-shell name, none
  whose name starts with \<open>offline-map-tiles-\<close> and is not the live tile name, and the
  two live partitions are as they were: present or not, with the same entries. The live
  names are taken to belong to their own class, as the names of the source do.
\<close>

theorem generational_eviction:
  assumes act: "activate cfg e w = (Inr (), w')"
      and app: "startsWith (appShellCacheName cfg) ''offline-map-appshell-''"
      and tiles: "startsWith (tileCacheName cfg) ''offline-map-tiles-''"
  shows "(\<forall>n. startsWith n ''offline-map-appshell-'' \<and> n \<noteq> appShellCacheName cfg
              \<longrightarrow> partition_of w' n = None)
       \<and> (\<forall>n. startsWith n ''offline-map-tiles-'' \<and> n \<noteq> tileCacheName cfg
              \<longrightarrow> partition_of w' n = None)
       \<and> partition_of w' (appShellCacheName cfg) = partition_of w (appShellCacheName cfg)
       \<and> partition_of w' (tileCacheName cfg) = partition_of w (tileCacheName cfg)"
proof -
  have "\<not> startsWith (appShellCacheName cfg) ''offline-map-tiles-''"
    using app by (rule class_prefixes_disjoint)
  then have a: "\<not> isOldCache cfg (appShellCacheName cfg)"
    unfolding isOldCache_def by blast
  have "\<not> startsWith (tileCacheName cfg) ''offline-map-appshell-''"
    using tiles class_prefixes_disjoint by blast
  then have t: "\<not> isOldCache cfg (tileCacheName cfg)"
    unfolding isOldCache_def by blast
  have gone: "partition_of w' n = None" if "isOldCache cfg n" for n
    using activate_partition[OF act, of n] that by simp
  have "partition_of w' n = None"
    if "startsWith n ''offline-map-appshell-'' \<and> n \<noteq> appShellCacheName cfg" for n
    using that by (intro gone) (unfold isOldCache_def, blast)
  moreover have "partition_of w' n = None"
    if "startsWith n ''offline-map-tiles-'' \<and> n \<noteq> tileCacheName cfg" for n
    using that by (intro gone) (unfold isOldCache_def, blast)
  moreover have "partition_of w' (appShellCacheName cfg) = partition_of w (appShellCacheName cfg)"
    using activate_partition[OF act, of "appShellCacheName cfg"] a by simp
  moreover have "partition_of w' (tileCacheName cfg) = partition_of w (tileCacheName cfg)"
    using activate_partition[OF act, of "tileCacheName cfg"] t by simp
  ultimately show ?thesis
    by blast
qed

theorem generational_eviction_witness:
  "startsWith (appShellCacheName sw) ''offline-map-appshell-''
   \<and> startsWith (tileCacheName sw) ''offline-map-tiles-''
   \<and> startsWith ''offline-map-appshell-v0'' ''offline-map-appshell-''
   \<and> ''offline-map-appshell-v0'' \<noteq> appShellCacheName sw
   \<and> partition_of usedWorld ''offline-map-appshell-v0'' \<noteq> None
   \<and> (\<exists>w'. activate sw env0 usedWorld = (Inr (), w')
         \<and> partition_of w' ''offline-map-appshell-v0'' = None
         \<and> partition_of w' (appShellCacheName sw) = partition_of usedWorld (appShellCacheName sw)
         \<and> partition_of w' (tileCacheName sw) = partition_of usedWorld (tileCacheName sw))"
proof -
  have app: "startsWith (appShellCacheName sw) ''offline-map-appshell-''"
    by (simp add: sw_def APP_SHELL_CACHE_NAME_def)
  have tiles: "startsWith (tileCacheName sw) ''offline-map-tiles-''"
    by (simp add: sw_def TILE_CACHE_NAME_def)
  have old: "startsWith ''offline-map-appshell-v0'' ''offline-map-appshell-''
             \<and> ''offline-map-appshell-v0'' \<noteq> appShellCacheName sw"
    by (simp add: sw_def APP_SHELL_CACHE_NAME_def)
  have there: "partition_of usedWorld ''offline-map-appshell-v0'' \<noteq> None"
    by (simp add: partition_of_def usedWorld_def)
  have "fst (activate sw env0 usedWorld) = Inr ()"
    by (simp add: model_defs example_defs)
  then obtain w' where act: "activate sw env0 usedWorld = (Inr (), w')"
    by (cases "activate sw env0 usedWorld") simp
  from generational_eviction [OF act app tiles] old
  have "partition_of w' ''offline-map-appshell-v0'' = None
        \<and> partition_of w' (appShellCacheName sw) = partition_of usedWorld (appShellCacheName sw)
        \<and> partition_of w' (tileCacheName sw) = partition_of usedWorld (tileCacheName sw)"
    by blast
  with app tiles old there act show ?thesis
    by blast
qed

text \<open>
  C6. The worker is redeployed with the tile generation bumped from
  \<open>offline-map-tiles-v1\<close> to \<open>offline-map-tiles-v2\<close>; Install and Activate run and
  Activate completes. Then the v1 partition is absent. The v2 partition is neither
  created nor removed by Install and Activate: it is as it was before the deployment.
  It comes into being, possibly empty, when the fetch listener serves the first tile
  request.
\<close>

theorem tile_rollover:
  assumes act: "activate sw_v2 e (install sw_v2 e w) = (Inr (), w')"
  shows "partition_of w' ''offline-map-tiles-v1'' = None
       \<and> partition_of w' ''offline-map-tiles-v2'' = partition_of w ''offline-map-tiles-v2''
       \<and> (\<forall>req. startsWith (url req) TILE_URL_PATTERN \<longrightarrow>
             partition_of (snd (fetch_listener sw_v2 e req w')) ''offline-map-tiles-v2'' \<noteq> None)"
proof -
  have old: "isOldCache sw_v2 ''offline-map-tiles-v1''"
    by (simp add: isOldCache_def sw_v2_def sw_def)
  have live: "\<not> isOldCache sw_v2 ''offline-map-tiles-v2''"
    by (simp add: isOldCache_def sw_v2_def sw_def)
  have other: "''offline-map-tiles-v2'' \<noteq> appShellCacheName sw_v2"
    by (simp add: sw_v2_def sw_def APP_SHELL_CACHE_NAME_def)
  have "partition_of w' ''offline-map-tiles-v1'' = None"
    using activate_partition[OF act, of "''offline-map-tiles-v1''"] old by simp
  moreover have "partition_of w' ''offline-map-tiles-v2'' = partition_of w ''offline-map-tiles-v2''"
    using activate_partition[OF act, of "''offline-map-tiles-v2''"] live
          install_partition_other[OF other, of e w] by simp
  moreover have "partition_of (snd (fetch_listener sw_v2 e req w')) ''offline-map-tiles-v2'' \<noteq> None"
    if "startsWith (url req) TILE_URL_PATTERN" for req
  proof -
    have "fetch_listener sw_v2 e req w' = cacheFirstThenNetwork e req ''offline-map-tiles-v2'' w'"
      using that by (simp add: fetch_listener_def sw_v2_def sw_def)
    then show ?thesis
      by (simp only: cacheFirstThenNetwork_opens not_False_eq_True)
  qed
  ultimately show ?thesis
    by blast
qed

theorem tile_rollover_witness:
  "fst (activate sw_v2 env0 (install sw_v2 env0 usedWorld)) = Inr ()
   \<and> partition_of usedWorld ''offline-map-tiles-v1'' \<noteq> None
   \<and> partition_of (snd (activate sw_v2 env0 (install sw_v2 env0 usedWorld)))
        ''offline-map-tiles-v1'' = None
   \<and> partition_of (snd (activate sw_v2 env0 (install sw_v2 env0 usedWorld)))
        ''offline-map-tiles-v2'' = None
   \<and> startsWith (url tileRequest) TILE_URL_PATTERN
   \<and> partition_of (snd (fetch_listener sw_v2 env0 tileRequest
                          (snd (activate sw_v2 env0 (install sw_v2 env0 usedWorld)))))
        ''offline-map-tiles-v2'' \<noteq> None"
proof -
  let ?run = "activate sw_v2 env0 (install sw_v2 env0 usedWorld)"
  have ok: "fst ?run = Inr ()"
    by (simp add: model_defs example_defs)
  then have act: "?run = (Inr (), snd ?run)"
    by (simp add: prod_eq_iff)
  have before: "partition_of usedWorld ''offline-map-tiles-v1'' \<noteq> None"
               "partition_of usedWorld ''offline-map-tiles-v2'' = None"
    by (simp_all add: partition_of_def usedWorld_def)
  have tile: "startsWith (url tileRequest) TILE_URL_PATTERN"
    by (simp add: tileRequest_def TILE_URL_PATTERN_def)
  from tile_rollover [OF act] ok before tile show ?thesis
    by simp
qed

text \<open>
  The same deployment on the concrete browser, evaluated: Activate completes, the caches
  left are the live application shell and the foreign one, and there is no v2 tile
  partition.
\<close>

theorem tiles_v2_not_created:
  "fst (activate sw_v2 env0 (install sw_v2 env0 usedWorld)) = Inr ()
   \<and> map fst (caches (snd (activate sw_v2 env0 (install sw_v2 env0 usedWorld))))
       = [''offline-map-appshell-v1'', ''leaflet-extras'']
   \<and> partition_of (snd (activate sw_v2 env0 (install sw_v2 env0 usedWorld)))
       ''offline-map-tiles-v2'' = None"
  by (simp add: model_defs example_defs)

subsection \<open>The message listener\<close>

text \<open>
  C7. The command \<open>deleteCache\<close> from a client, when there is no tile partition and the
  storage does not fail: the client is sent \<open>cacheDeleted\<close>, and the storage is as
  before.
\<close>

theorem delete_absent_tiles_replies_success:
  assumes msg: "data ev = Some obj" "map_of obj ''action'' = Some ''deleteCache''"
      and src: "source ev = Some client"
      and absent: "partition_of w (tileCacheName cfg) = None"
      and nofault: "deleteFault e (tileCacheName cfg) = None"
  shows "posted (message_listener cfg e ev w)
           = posted w @ [(client, \<lparr>reply_status = ''cacheDeleted'', reply_error = None\<rparr>)]
       \<and> caches (message_listener cfg e ev w) = caches w"
  using assms filter_absent[of "caches w" "tileCacheName cfg"]
  by (simp add: message_listener_def caches_delete_def postMessage_def partition_of_def)

theorem delete_absent_tiles_replies_success_witness:
  "data deleteEvent = Some [(''action'', ''deleteCache'')]
   \<and> map_of [(''action'', ''deleteCache'')] ''action'' = Some ''deleteCache''
   \<and> source deleteEvent = Some 7
   \<and> partition_of hitWorld (tileCacheName sw) = None
   \<and> deleteFault env0 (tileCacheName sw) = None
   \<and> posted (message_listener sw env0 deleteEvent hitWorld)
        = [(7, \<lparr>reply_status = ''cacheDeleted'', reply_error = None\<rparr>)]
   \<and> caches (message_listener sw env0 deleteEvent hitWorld) = caches hitWorld"
proof -
  have msg: "data deleteEvent = Some [(''action'', ''deleteCache'')]"
            "map_of [(''action'', ''deleteCache'')] ''action'' = Some ''deleteCache''"
    by (simp_all add: deleteEvent_def)
  have src: "source deleteEvent = Some 7"
    by (simp add: deleteEvent_def)
  have absent: "partition_of hitWorld (tileCacheName sw) = None"
    by (simp add: partition_of_def hitWorld_def sw_def TILE_CACHE_NAME_def APP_SHELL_CACHE_NAME_def)
  have nofault: "deleteFault env0 (tileCacheName sw) = None"
    by (simp add: env0_def)
  have "posted hitWorld = []"
    by (simp add: hitWorld_def world0_def)
  with delete_absent_tiles_replies_success [OF msg src absent nofault] msg src absent nofault
  show ?thesis by simp
qed

text \<open>
  C8. The command \<open>deleteCache\<close> from a client leaves every partition other than the
  live tile partition as it was, the application shell among them. When the storage
  does not fail, the tile partition is gone and the client is sent \<open>cacheDeleted\<close>;
  when it fails, nothing is deleted and the client is sent \<open>cacheDeleteFailed\<close> with
  the message of the error.
\<close>

theorem delete_cache_touches_tiles_only:
  assumes msg: "data ev = Some obj" "map_of obj ''action'' = Some ''deleteCache''"
      and src: "source ev = Some client"
  shows "(\<forall>n. n \<noteq> TILE_CACHE_NAME \<longrightarrow>
            partition_of (message_listener sw e ev w) n = partition_of w n)
       \<and> partition_of (message_listener sw e ev w) APP_SHELL_CACHE_NAME
           = partition_of w APP_SHELL_CACHE_NAME
       \<and> (case deleteFault e TILE_CACHE_NAME of
            None \<Rightarrow>
              partition_of (message_listener sw e ev w) TILE_CACHE_NAME = None
              \<and> posted (message_listener sw e ev w)
                  = posted w @ [(client, \<lparr>reply_status = ''cacheDeleted'', reply_error = None\<rparr>)]
          | Some err \<Rightarrow>
              caches (message_listener sw e ev w) = caches w
              \<and> posted (message_listener sw e ev w)
                  = posted w @ [(client, \<lparr>reply_status = ''cacheDeleteFailed'',
                                           reply_error = Some (message err)\<rparr>)])"
proof -
  let ?w' = "message_listener sw e ev w"
  have other: "partition_of ?w' n = partition_of w n" if "n \<noteq> TILE_CACHE_NAME" for n
    using that msg src map_of_filter_fst[of "\<lambda>m. m \<noteq> TILE_CACHE_NAME" "caches w" n]
    by (simp add: message_listener_def caches_delete_def postMessage_def partition_of_def sw_def
             split: option.splits)
  have "APP_SHELL_CACHE_NAME \<noteq> TILE_CACHE_NAME"
    by (simp add: APP_SHELL_CACHE_NAME_def TILE_CACHE_NAME_def)
  then have app: "partition_of ?w' APP_SHELL_CACHE_NAME = partition_of w APP_SHELL_CACHE_NAME"
    by (rule other)
  have reply: "(case deleteFault e TILE_CACHE_NAME of
            None \<Rightarrow>
              partition_of ?w' TILE_CACHE_NAME = None
              \<and> posted ?w'
                  = posted w @ [(client, \<lparr>reply_status = ''cacheDeleted'', reply_error = None\<rparr>)]
          | Some err \<Rightarrow>
              caches ?w' = caches w
              \<and> posted ?w'
                  = posted w @ [(client, \<lparr>reply_status = ''cacheDeleteFailed'',
                                           reply_error = Some (message err)\<rparr>)])"
    using msg src map_of_filter_fst[of "\<lambda>m. m \<noteq> TILE_CACHE_NAME" "caches w" TILE_CACHE_NAME]
    by (simp add: message_listener_def caches_delete_def postMessage_def partition_of_def sw_def
             split: option.splits)
  from other app reply show ?thesis
    by blast
qed

theorem delete_cache_touches_tiles_only_witness:
  "data deleteEvent = Some [(''action'', ''deleteCache'')]
   \<and> map_of [(''action'', ''deleteCache'')] ''action'' = Some ''deleteCache''
   \<and> source deleteEvent = Some 7
   \<and> ''leaflet-extras'' \<noteq> TILE_CACHE_NAME
   \<and> partition_of (message_listener sw env0 deleteEvent usedWorld) ''leaflet-extras''
        = partition_of usedWorld ''leaflet-extras''
   \<and> partition_of (message_listener sw env0 deleteEvent usedWorld) APP_SHELL_CACHE_NAME
        = Some [(''https://app.example/style.css'', cssSnapshot)]
   \<and> deleteFault env0 TILE_CACHE_NAME = None
   \<and> partition_of usedWorld TILE_CACHE_NAME \<noteq> None
   \<and> partition_of (message_listener sw env0 deleteEvent usedWorld) TILE_CACHE_NAME = None
   \<and> posted (message_listener sw env0 deleteEvent usedWorld)
        = [(7, \<lparr>reply_status = ''cacheDeleted'', reply_error = None\<rparr>)]
   \<and> deleteFault envFault TILE_CACHE_NAME = Some (Error ''QuotaExceededError'')
   \<and> caches (message_listener sw envFault deleteEvent usedWorld) = caches usedWorld
   \<and> posted (message_listener sw envFault deleteEvent usedWorld)
        = [(7, \<lparr>reply_status = ''cacheDeleteFailed'',
                 reply_error = Some ''QuotaExceededError''\<rparr>)]"
proof -
  have msg: "data deleteEvent = Some [(''action'', ''deleteCache'')]"
            "map_of [(''action'', ''deleteCache'')] ''action'' = Some ''deleteCache''"
    by (simp_all add: deleteEvent_def)
  have src: "source deleteEvent = Some 7"
    by (simp add: deleteEvent_def)
  have other: "''leaflet-extras'' \<noteq> TILE_CACHE_NAME"
    by (simp add: TILE_CACHE_NAME_def)
  have nofault: "deleteFault env0 TILE_CACHE_NAME = None"
    by (simp add: env0_def)
  have fault: "deleteFault envFault TILE_CACHE_NAME = Some (Error ''QuotaExceededError'')"
    by (simp add: envFault_def)
  have before: "partition_of usedWorld TILE_CACHE_NAME \<noteq> None"
               "partition_of usedWorld APP_SHELL_CACHE_NAME
                  = Some [(''https://app.example/style.css'', cssSnapshot)]"
               "posted usedWorld = []"
    by (simp_all add: partition_of_def usedWorld_def world0_def TILE_CACHE_NAME_def
                      APP_SHELL_CACHE_NAME_def)
  from delete_cache_touches_tiles_only [OF msg src, of env0 usedWorld]
       delete_cache_touches_tiles_only [OF msg src, of envFault usedWorld]
       msg src other nofault fault before
  show ?thesis by simp
qed

lemma wf_message_listener: "wf_world w \<Longrightarrow> wf_world (message_listener cfg e ev w)"
  by (auto simp: message_listener_def caches_delete_def postMessage_def wf_world_def
           split: option.splits)

end
